theory Spec2Isabelle
  imports Complex_Main
begin

section \<open>Values exchanged with the session endpoint\<close>

text \<open>
  Steps are opaque payloads and session ids are names; both are strings here.
  Times are milliseconds as returned by \<^verbatim>\<open>Date.now()\<close>, document versions are
  integers. A JavaScript reference that may be \<^verbatim>\<open>null\<close> or \<^verbatim>\<open>undefined\<close> keeps the
  two apart, because \<^verbatim>\<open>_close\<close> compares with \<^verbatim>\<open>=== null\<close> while \<^verbatim>\<open>sendSteps\<close>
  tests falsiness.
\<close>

type_synonym step = string
type_synonym session_id = string

datatype 'a ref = Null | Undefined | Obj 'a

datatype js_error = TypeError

record remote_document =
  lastSavedVersion :: int
  lastSavedVersionTime :: int

record session =
  lastContact :: int

text \<open>One element of \<^verbatim>\<open>steps\<close> in a sync response. \<^verbatim>\<open>b_data\<close> is \<^verbatim>\<open>None\<close> when the
  \<^verbatim>\<open>data\<close> property is not an Array.\<close>

record bucket =
  b_version :: int
  b_sessionId :: session_id
  b_data :: "step list option"

record sync_data =
  d_document :: remote_document
  d_sessions :: "session list"
  d_steps :: "bucket list"

text \<open>The properties of a \<^verbatim>\<open>Connection\<close> that the service reads. The class is
  defined beside \<^verbatim>\<open>SessionApi\<close>; its requests (\<^verbatim>\<open>push\<close>, \<^verbatim>\<open>sync\<close>, \<^verbatim>\<open>close\<close>) and
  \<^verbatim>\<open>SessionApi.open\<close> are settled by the endpoint, so the way each one settles is an
  argument of the method that waits for it.\<close>

record connection =
  c_lastSavedVersion :: int
  c_document :: remote_document
  c_state :: string
  c_isPublic :: bool

text \<open>A rejected request: \<^verbatim>\<open>{ response, code }\<close> with
  \<^verbatim>\<open>response = { status, data }\<close>; \<^verbatim>\<open>data.document\<close> and \<^verbatim>\<open>currentVersion\<close>
  may be missing.\<close>

record push_document =
  currentVersion :: "int option"

record response_data =
  rd_document :: "push_document option"
  rd_outsideChange :: "string option"

record response =
  r_status :: int
  r_data :: response_data

record http_error =
  e_response :: "response option"
  e_code :: "string option"

section \<open>Events and other observable effects\<close>

datatype ERROR_TYPE =
  SAVE_COLLISSION | PUSH_FAILURE | LOAD_ERROR | CONNECTION_FAILED | SOURCE_NOT_FOUND

definition error_code :: "ERROR_TYPE \<Rightarrow> nat" where
  "error_code t = (case t of SAVE_COLLISSION \<Rightarrow> 0 | PUSH_FAILURE \<Rightarrow> 1 | LOAD_ERROR \<Rightarrow> 2
     | CONNECTION_FAILED \<Rightarrow> 3 | SOURCE_NOT_FOUND \<Rightarrow> 4)"

datatype error_data =
  NoData
  | RetryFalse
  | ResponseData response
  | OutsideChange "string option"

datatype event =
  Opened string "int option"
  | Loaded string "int option"
  | Change remote_document "session list"
  | Save remote_document "session list"
  | Sync "(step \<times> session_id) list" remote_document "int option"
  | StateChangeDirty bool
  | StateChangeInitialLoading bool
  | Error ERROR_TYPE error_data
  | Idle

text \<open>What a method does besides changing fields, in program order: events put on the
  bus, log lines, the host notification, and timers it sets.\<close>

datatype effect =
  Emit event
  | LogError string
  | LogDebug string
  | ShowTemporary string
  | SetTimeout nat

definition emitted :: "effect list \<Rightarrow> event list" where
  "emitted fx = concat (map (\<lambda>e. case e of Emit ev \<Rightarrow> [ev] | _ \<Rightarrow> []) fx)"

section \<open>PollingBackend: constants and fields\<close>

definition FETCH_INTERVAL :: int where "FETCH_INTERVAL = 300"
definition FETCH_INTERVAL_MAX :: int where "FETCH_INTERVAL_MAX = 5000"
definition FETCH_INTERVAL_SINGLE_EDITOR :: int where "FETCH_INTERVAL_SINGLE_EDITOR = 5000"
definition FETCH_INTERVAL_INVISIBLE :: int where "FETCH_INTERVAL_INVISIBLE = 60000"
definition AUTOSAVE_INTERVAL :: int where "AUTOSAVE_INTERVAL = 30000"
definition MAX_RETRY_FETCH_COUNT :: int where "MAX_RETRY_FETCH_COUNT = 5"

text \<open>\<^verbatim>\<open>FETCH_INTERVAL_INVISIBLE * 1.5\<close>; the product is the integer 90000.\<close>

definition COLLABORATOR_DISCONNECT_TIME :: int where
  "COLLABORATOR_DISCONNECT_TIME = FETCH_INTERVAL_INVISIBLE * 3 div 2"

text \<open>Fields that start \<^verbatim>\<open>undefined\<close> are only ever tested for truthiness
  (\<^verbatim>\<open>pollActive\<close>, \<^verbatim>\<open>forcedSave\<close>, \<^verbatim>\<open>manualSave\<close>, \<^verbatim>\<open>initialLoadingFinished\<close>)
  or compared with zero (\<^verbatim>\<open>fetcher\<close>), so \<^verbatim>\<open>undefined\<close> is \<open>False\<close> and \<open>0\<close>.\<close>

record pollingBackend =
  fetcher :: int
  lastPoll :: int
  lastSave :: int
  fetchInterval :: int
  fetchRetryCounter :: int
  pollActive :: bool
  forcedSave :: bool
  manualSave :: bool
  initialLoadingFinished :: bool

definition new_PollingBackend :: "int \<Rightarrow> pollingBackend" where
  "new_PollingBackend now =
     \<lparr> fetcher = 0, lastPoll = 0, lastSave = now, fetchInterval = FETCH_INTERVAL,
       fetchRetryCounter = 0, pollActive = False, forcedSave = False, manualSave = False,
       initialLoadingFinished = False \<rparr>"

section \<open>SyncService: fields and constructor\<close>

definition IDLE_TIMEOUT :: int where "IDLE_TIMEOUT = 1440"

text \<open>\<^verbatim>\<open>version\<close> is \<^verbatim>\<open>null\<close> (\<open>None\<close>) until \<^verbatim>\<open>open\<close> sets it. \<^verbatim>\<open>changeHandlers\<close>
  counts the \<^verbatim>\<open>change\<close> subscriptions that \<^verbatim>\<open>open\<close> has registered.

  The service and its backend refer to each other (\<^verbatim>\<open>this.backend\<close> and
  \<^verbatim>\<open>#syncService\<close>), so the two objects are kept side by side: a method of the service
  that uses \<^verbatim>\<open>this.backend\<close> works on a \<open>world\<close>, whose second component is \<open>None\<close>
  while \<^verbatim>\<open>this.backend\<close> is \<^verbatim>\<open>undefined\<close>; a method of the backend works on the
  service and its receiver.\<close>

record syncService =
  connection :: "connection ref"
  sessions :: "session list"
  steps :: "step list"
  stepClientIDs :: "session_id list"
  lastStepPush :: int
  version :: "int option"
  sending :: bool
  changeHandlers :: nat

type_synonym world = "syncService \<times> pollingBackend option"

definition new_SyncService :: "int \<Rightarrow> syncService" where
  "new_SyncService now =
     \<lparr> connection = Null, sessions = [], steps = [], stepClientIDs = [],
       lastStepPush = now, version = None, sending = False,
       changeHandlers = 0 \<rparr>"

definition new_world :: "int \<Rightarrow> world" where
  "new_world now = (new_SyncService now, None)"

text \<open>\<^verbatim>\<open>this.version < n\<close>: the relational operator converts \<^verbatim>\<open>null\<close> to 0.\<close>

definition js_lt :: "int option \<Rightarrow> int \<Rightarrow> bool" where
  "js_lt v n = (case v of None \<Rightarrow> 0 < n | Some m \<Rightarrow> m < n)"

text \<open>\<^verbatim>\<open>Array.prototype.slice(start)\<close> for an integer \<^verbatim>\<open>start\<close>: a negative start
  counts from the end, and the start is clamped to the array.\<close>

definition js_slice :: "'a list \<Rightarrow> int \<Rightarrow> 'a list" where
  "js_slice xs start =
     (let n = int (length xs);
          k = (if start < 0 then max (n + start) 0 else min start n)
      in drop (nat k) xs)"

section \<open>SyncService: stepsSince and \_receiveSteps\<close>

record steps_since =
  ss_steps :: "step list"
  ss_clientIDs :: "session_id list"

definition stepsSince :: "int \<Rightarrow> syncService \<Rightarrow> steps_since" where
  "stepsSince v s =
     \<lparr> ss_steps = js_slice (steps s) v, ss_clientIDs = js_slice (stepClientIDs s) v \<rparr>"

text \<open>The loop state of \<^verbatim>\<open>_receiveSteps\<close>: the service, the local \<^verbatim>\<open>newSteps\<close> and the
  log lines written so far.\<close>

type_synonym receive_acc = "syncService \<times> (step \<times> session_id) list \<times> effect list"

text \<open>The callback of \<^verbatim>\<open>singleSteps.forEach\<close> for the bucket with session id \<open>sid\<close>.\<close>

definition push_step :: "session_id \<Rightarrow> receive_acc \<Rightarrow> step \<Rightarrow> receive_acc" where
  "push_step sid acc st =
     (case acc of (s, newSteps, fx) \<Rightarrow>
        (s\<lparr>steps := steps s @ [st]\<rparr>, newSteps @ [(st, sid)], fx))"

text \<open>One iteration of the \<^verbatim>\<open>for\<close> loop.\<close>

definition receive_bucket :: "receive_acc \<Rightarrow> bucket \<Rightarrow> receive_acc" where
  "receive_bucket acc b =
     (case acc of (s, newSteps, fx) \<Rightarrow>
        let s1 = (if js_lt (version s) (b_version b)
                  then s\<lparr>version := Some (b_version b)\<rparr> else s)
        in (case b_data b of
              None \<Rightarrow> (s1, newSteps, fx @ [LogError ''Invalid step data, skipping step''])
            | Some singleSteps \<Rightarrow>
                foldl (push_step (b_sessionId b)) (s1, newSteps, fx) singleSteps))"

text \<open>\<^verbatim>\<open>_receiveSteps\<close> at time \<open>now\<close>. Reading \<^verbatim>\<open>this.connection.document\<close> for the
  \<^verbatim>\<open>sync\<close> event throws when there is no connection object; the fields have been
  written by then and no event is emitted.\<close>

definition receiveSteps ::
  "int \<Rightarrow> sync_data \<Rightarrow> syncService \<Rightarrow> syncService \<times> effect list \<times> (js_error + unit)" where
  "receiveSteps now d s =
     (case foldl receive_bucket (s, [], []) (d_steps d) of (s1, newSteps, fx) \<Rightarrow>
        let s2 = s1\<lparr>lastStepPush := now\<rparr>
        in (case connection s2 of
              Obj c \<Rightarrow> (s2, fx @ [Emit (Sync newSteps (c_document c) (version s2))], Inr ())
            | _ \<Rightarrow> (s2, fx, Inl TypeError)))"

section \<open>SyncService: open and \_emitError\<close>

definition emitError :: "http_error \<Rightarrow> effect list" where
  "emitError e =
     (case e_response e of
        None \<Rightarrow> [Emit (Error CONNECTION_FAILED NoData)]
      | Some r \<Rightarrow>
          if e_code e = Some ''ECONNABORTED''
          then [Emit (Error CONNECTION_FAILED NoData)]
          else [Emit (Error LOAD_ERROR (ResponseData r))])"

text \<open>\<^verbatim>\<open>open\<close> at time \<open>now\<close>. \<open>initialSession\<close> is the connection built from the
  initial session when one is passed; otherwise \<open>api_open\<close> is how
  \<^verbatim>\<open>this._api.open\<close> settles. The \<^verbatim>\<open>catch\<close> callback returns what \<^verbatim>\<open>_emitError\<close> returns,
  \<^verbatim>\<open>undefined\<close>, which is then stored in \<^verbatim>\<open>this.connection\<close>; reading
  \<^verbatim>\<open>lastSavedVersion\<close> from it throws, and the promise of the async function rejects.\<close>

definition open_SyncService ::
  "int \<Rightarrow> connection option \<Rightarrow> http_error + connection \<Rightarrow> world
     \<Rightarrow> world \<times> effect list \<times> (js_error + unit)" where
  "open_SyncService now initialSession api_open w =
     (case w of (s, bk) \<Rightarrow>
        let s0 = s\<lparr>changeHandlers := changeHandlers s + 1\<rparr>;
            awaited = (case initialSession of
                         Some c \<Rightarrow> (Obj c, [])
                       | None \<Rightarrow>
                           (case api_open of
                              Inr c \<Rightarrow> (Obj c, [])
                            | Inl e \<Rightarrow> (Undefined, emitError e)));
            s1 = s0\<lparr>connection := fst awaited\<rparr>;
            fx = snd awaited
        in (case connection s1 of
              Obj c \<Rightarrow>
                (let s2 = s1\<lparr>version := Some (c_lastSavedVersion c)\<rparr>
                 in ((s2, Some (new_PollingBackend now)),
                     fx @ [Emit (Opened (c_state c) (version s2)),
                           Emit (Loaded (c_state c) (version s2))],
                     Inr ()))
            | _ \<Rightarrow> ((s1, bk), fx, Inl TypeError)))"

text \<open>The \<^verbatim>\<open>change\<close> subscription registered by \<^verbatim>\<open>open\<close>.\<close>

definition on_change :: "session list \<Rightarrow> syncService \<Rightarrow> syncService" where
  "on_change ss s = (if 0 < changeHandlers s then s\<lparr>sessions := ss\<rparr> else s)"

section \<open>SyncService: sendSteps\<close>

datatype push_outcome = Pushed | PushRejected http_error

text \<open>\<^verbatim>\<open>data.document?.currentVersion === this.version\<close>: the left side is
  \<^verbatim>\<open>undefined\<close> when the document or the property is missing, the right side is
  \<^verbatim>\<open>null\<close> or a number; strict equality holds for two equal numbers only.\<close>

definition currentVersion_is :: "push_document option \<Rightarrow> int option \<Rightarrow> bool" where
  "currentVersion_is doc v =
     (case Option.bind doc currentVersion of
        None \<Rightarrow> False
      | Some cv \<Rightarrow> (case v of None \<Rightarrow> False | Some n \<Rightarrow> cv = n))"

text \<open>The \<^verbatim>\<open>catch\<close> callback of the push.\<close>

definition push_rejected :: "http_error \<Rightarrow> syncService \<Rightarrow> syncService \<times> effect list" where
  "push_rejected e s =
     (let fx0 = [LogError ''failed to apply steps due to collission, retrying''];
          s1 = s\<lparr>sending := False\<rparr>
      in (case e_response e of
            None \<Rightarrow> (s1, fx0 @ [Emit (Error CONNECTION_FAILED NoData)])
          | Some r \<Rightarrow>
              if e_code e = Some ''ECONNABORTED''
              then (s1, fx0 @ [Emit (Error CONNECTION_FAILED NoData)])
              else if r_status r = 403
              then (s1, fx0
                      @ (if rd_document (r_data r) = None
                         then [LogError ''failed to write to document - not allowed'']
                         else [])
                      @ (if currentVersion_is (rd_document (r_data r)) (version s1)
                         then [Emit (Error PUSH_FAILURE NoData),
                               ShowTemporary ''Changes could not be sent yet'']
                         else []))
              else (s1, fx0)))"

text \<open>\<^verbatim>\<open>sendSteps\<close>, with the way the push settles given by \<open>outcome\<close>. Without a
  connection, or while a push is in flight, the call only emits the state change and
  sets the 200 ms timer that calls it again.\<close>

definition sendSteps :: "push_outcome \<Rightarrow> syncService \<Rightarrow> syncService \<times> effect list" where
  "sendSteps outcome s =
     (let fx0 = [Emit (StateChangeDirty True)]
      in if (case connection s of Obj c \<Rightarrow> False | _ \<Rightarrow> True) \<or> sending s
         then (s, fx0 @ [SetTimeout 200])
         else (let s1 = s\<lparr>sending := True\<rparr>
               in (case outcome of
                     Pushed \<Rightarrow> (s1\<lparr>sending := False\<rparr>, fx0)
                   | PushRejected e \<Rightarrow>
                       (case push_rejected e s1 of (s2, fx) \<Rightarrow> (s2, fx0 @ fx)))))"

section \<open>SyncService: checkIdle\<close>

text \<open>The elapsed minutes are a quotient of numbers; it is taken over the reals. For
  integer millisecond clocks the two roundings of the double divisions are monotone and
  exact at 86400000 ms, so they do not change the comparison with 1440.\<close>

definition checkIdle :: "int \<Rightarrow> syncService \<Rightarrow> bool \<times> effect list" where
  "checkIdle now s =
     (let lastPushMinutesAgo = real_of_int (now - lastStepPush s) / 1000 / 60
      in if lastPushMinutesAgo > real_of_int IDLE_TIMEOUT
         then (True, [LogDebug ''[SyncService] Document is idle, suspending connection'',
                      Emit Idle])
         else (False, []))"

section \<open>PollingBackend: methods\<close>

definition connect :: "int \<Rightarrow> pollingBackend \<Rightarrow> pollingBackend \<times> effect list" where
  "connect interval_id b =
     (if fetcher b > 0
      then (b, [LogError ''Trying to connect, but already connected''])
      else (b\<lparr>initialLoadingFinished := False, fetcher := interval_id\<rparr>, []))"

definition forceSave :: "pollingBackend \<Rightarrow> pollingBackend" where
  "forceSave b = b\<lparr>forcedSave := True\<rparr>"

definition save :: "pollingBackend \<Rightarrow> pollingBackend" where
  "save b = b\<lparr>manualSave := True\<rparr>"

definition disconnect :: "pollingBackend \<Rightarrow> pollingBackend" where
  "disconnect b = b\<lparr>fetcher := 0\<rparr>"

definition resetRefetchTimer :: "pollingBackend \<Rightarrow> pollingBackend" where
  "resetRefetchTimer b = b\<lparr>fetchInterval := FETCH_INTERVAL\<rparr>"

definition increaseRefetchTimer :: "pollingBackend \<Rightarrow> pollingBackend" where
  "increaseRefetchTimer b = b\<lparr>fetchInterval := min (fetchInterval b * 2) FETCH_INTERVAL_MAX\<rparr>"

definition maximumRefetchTimer :: "pollingBackend \<Rightarrow> pollingBackend" where
  "maximumRefetchTimer b = b\<lparr>fetchInterval := FETCH_INTERVAL_SINGLE_EDITOR\<rparr>"

definition visibilitychange :: "bool \<Rightarrow> pollingBackend \<Rightarrow> pollingBackend" where
  "visibilitychange hidden b =
     (if hidden then b\<lparr>fetchInterval := FETCH_INTERVAL_INVISIBLE\<rparr> else resetRefetchTimer b)"

text \<open>The sessions that \<^verbatim>\<open>_handleResponse\<close> counts as alive at time \<open>now\<close>;
  \<^verbatim>\<open>lastContact\<close> is in seconds.\<close>

definition alive :: "int \<Rightarrow> session list \<Rightarrow> session list" where
  "alive now ss =
     (let disconnect_time = now - COLLABORATOR_DISCONNECT_TIME
      in filter (\<lambda>s. lastContact s * 1000 > disconnect_time) ss)"

text \<open>\<^verbatim>\<open>_handleResponse\<close> for the response body \<open>d\<close>, with the clock reading \<open>now\<close>
  for the whole synchronous call. The bus delivers an event before \<^verbatim>\<open>emit\<close> returns, so
  the \<^verbatim>\<open>change\<close> subscription of \<^verbatim>\<open>open\<close> has overwritten the roster of the service
  when the next statement runs. The \<^verbatim>\<open>save\<close> event has a subscription only while a
  \<^verbatim>\<open>close\<close> is pending; it is the callback \<open>on_save\<close> of that call's closure, given
  with \<^verbatim>\<open>close\<close> below, which stops the driver (\<^verbatim>\<open>fetcher\<close>) and asks the connection to
  close, and writes neither the service nor a field that this method reads. An exception
  thrown by \<^verbatim>\<open>_receiveSteps\<close> leaves the method at that point.\<close>

definition handleResponse ::
  "int \<Rightarrow> sync_data \<Rightarrow> syncService \<times> pollingBackend
     \<Rightarrow> (syncService \<times> pollingBackend) \<times> effect list \<times> (js_error + unit)" where
  "handleResponse now d w =
     (case w of (s, b) \<Rightarrow>
        let doc = d_document d;
            b1 = b\<lparr>fetchRetryCounter := 0\<rparr>;
            saved = js_lt (version s) (lastSavedVersion doc);
            b2 = (if saved then b1\<lparr>lastSave := lastSavedVersionTime doc\<rparr> else b1);
            fx1 = (if saved
                   then [LogDebug ''Saved document'', Emit (Save doc (d_sessions d))]
                   else [])
                  @ [Emit (Change doc (d_sessions d))];
            s1 = on_change (d_sessions d) s
        in if length (d_steps d) = 0
           then (let b3 = (if \<not> initialLoadingFinished b2
                           then b2\<lparr>initialLoadingFinished := True,
                                   lastSave := lastSavedVersionTime doc\<rparr>
                           else b2);
                     idle = checkIdle now s1
                 in if fst idle
                    then ((s1, b3), fx1 @ snd idle, Inr ())
                    else (let b4 = (if length (alive now (d_sessions d)) < 2
                                    then maximumRefetchTimer b3
                                    else increaseRefetchTimer b3)
                          in ((s1, b4),
                              fx1 @ snd idle
                                @ [Emit (StateChangeDirty False),
                                   Emit (StateChangeInitialLoading True)],
                              Inr ())))
           else (case receiveSteps now d s1 of
                   (s2, fx2, Inl err) \<Rightarrow> ((s2, b2), fx1 @ fx2, Inl err)
                 | (s2, fx2, Inr u) \<Rightarrow>
                     (let b3 = b2\<lparr>forcedSave := False\<rparr>;
                          b4 = (if initialLoadingFinished b3 then resetRefetchTimer b3 else b3)
                      in ((s2, b4), fx1 @ fx2, Inr ()))))"

text \<open>The first branch of \<^verbatim>\<open>_handleError\<close>: no response, or the request was aborted.\<close>

definition no_response :: "http_error \<Rightarrow> bool" where
  "no_response e = (e_response e = None \<or> e_code e = Some ''ECONNABORTED'')"

text \<open>The retry branch: \<^verbatim>\<open>this.#fetchRetryCounter++ >= MAX_RETRY_FETCH_COUNT\<close> compares
  the value before the increment.\<close>

definition network_error :: "pollingBackend \<Rightarrow> pollingBackend \<times> effect list" where
  "network_error b =
     (let counter = fetchRetryCounter b;
          b1 = b\<lparr>fetchRetryCounter := counter + 1\<rparr>
      in if counter \<ge> MAX_RETRY_FETCH_COUNT
         then (b1, [LogError ''Network error when fetching steps, emitting CONNECTION_FAILED'',
                    Emit (Error CONNECTION_FAILED RetryFalse)])
         else (b1, [LogError ''Network error when fetching steps, retry'']))"

definition handleError :: "http_error \<Rightarrow> pollingBackend \<Rightarrow> pollingBackend \<times> effect list" where
  "handleError e b =
     (case e_response e of
        None \<Rightarrow> network_error b
      | Some r \<Rightarrow>
          if e_code e = Some ''ECONNABORTED''
          then network_error b
          else if r_status r = 409
          then (disconnect b,
                [LogError ''Conflict during file save, please resolve'',
                 Emit (Error SAVE_COLLISSION (OutsideChange (rd_outsideChange (r_data r))))])
          else if r_status r = 403
          then (disconnect b, [Emit (Error SOURCE_NOT_FOUND NoData)])
          else if r_status r = 404
          then (disconnect b, [Emit (Error SOURCE_NOT_FOUND NoData)])
          else if r_status r = 503
          then (increaseRefetchTimer b,
                [Emit (Error CONNECTION_FAILED RetryFalse),
                 LogError ''Failed to fetch steps due to unavailable service''])
          else (disconnect b,
                [Emit (Error CONNECTION_FAILED RetryFalse),
                 LogError ''Failed to fetch steps due to other reason'']))"

section \<open>SyncService: close and \_close\<close>

datatype promise_state = Pending | Resolved | Rejected

text \<open>What \<^verbatim>\<open>_close\<close> returns: \<^verbatim>\<open>Promise.resolve()\<close>, or the promise of
  \<^verbatim>\<open>this.connection.close()\<close>, which the endpoint settles.\<close>

datatype close_promise = AlreadyResolved | ConnectionClose

definition close_internal :: "world \<Rightarrow> world \<times> (js_error + close_promise)" where
  "close_internal w =
     (case w of (s, bk) \<Rightarrow>
        (case connection s of
           Null \<Rightarrow> (w, Inr AlreadyResolved)
         | Undefined \<Rightarrow>
             (case bk of
                None \<Rightarrow> (w, Inl TypeError)
              | Some b \<Rightarrow> ((s, Some (disconnect b)), Inl TypeError))
         | Obj c \<Rightarrow>
             (case bk of
                None \<Rightarrow> (w, Inl TypeError)
              | Some b \<Rightarrow> ((s, Some (disconnect b)), Inr ConnectionClose))))"

text \<open>One call of \<^verbatim>\<open>close\<close> creates a closure: the local \<^verbatim>\<open>closed\<close>, the promise it
  returns, the 2000 ms timer, and the \<^verbatim>\<open>_close\<close> promises whose \<^verbatim>\<open>then\<close>/\<^verbatim>\<open>catch\<close>
  callbacks have not run yet, each with the callback that started it.\<close>

datatype origin = SaveHandler | TimeoutHandler

record close_call =
  closed_flag :: bool
  promise :: promise_state
  timer :: bool
  closing :: "(origin \<times> close_promise) list"

text \<open>\<^verbatim>\<open>close\<close>: \<^verbatim>\<open>this.backend.disconnect()\<close> throws before the promise exists when
  there is no backend. The executor subscribes to \<^verbatim>\<open>save\<close>, sets the timer and calls
  \<^verbatim>\<open>this.save()\<close>; it never calls \<^verbatim>\<open>reject\<close>.\<close>

definition close :: "world \<Rightarrow> js_error + world \<times> close_call \<times> effect list" where
  "close w =
     (case w of (s, bk) \<Rightarrow>
        (case bk of
           None \<Rightarrow> Inl TypeError
         | Some b \<Rightarrow>
             Inr ((s, Some (save (disconnect b))),
                  \<lparr> closed_flag = False, promise = Pending, timer = True, closing = [] \<rparr>,
                  [SetTimeout 2000])))"

text \<open>\<^verbatim>\<open>resolve()\<close>: settles a pending promise and does nothing to a settled one.\<close>

definition resolve :: "close_call \<Rightarrow> close_call" where
  "resolve cl = (if promise cl = Pending then cl\<lparr>promise := Resolved\<rparr> else cl)"

text \<open>What can happen to the closure afterwards: a \<^verbatim>\<open>save\<close> event reaches its
  subscription, its timer fires, or the \<open>i\<close>-th outstanding \<^verbatim>\<open>_close\<close> promise settles
  (\<open>True\<close>: fulfilled, \<open>False\<close>: rejected).\<close>

datatype close_event = SaveEmitted | TimerFired | Settled nat bool

text \<open>The \<^verbatim>\<open>save\<close> subscription. An exception thrown by \<^verbatim>\<open>_close\<close> leaves the
  callback before any promise is chained.\<close>

definition on_save :: "world \<times> close_call \<Rightarrow> world \<times> close_call" where
  "on_save st =
     (case st of (w, cl) \<Rightarrow>
        (case close_internal w of
           (w1, Inl err) \<Rightarrow> (w1, cl)
         | (w1, Inr p) \<Rightarrow> (w1, cl\<lparr>closing := closing cl @ [(SaveHandler, p)]\<rparr>)))"

text \<open>The timer callback; the timer fires once.\<close>

definition on_timeout :: "world \<times> close_call \<Rightarrow> world \<times> close_call" where
  "on_timeout st =
     (case st of (w, cl) \<Rightarrow>
        if \<not> timer cl then (w, cl)
        else (let cl1 = cl\<lparr>timer := False\<rparr>
              in if \<not> closed_flag cl1
                 then (case close_internal w of
                         (w1, Inl err) \<Rightarrow> (w1, cl1)
                       | (w1, Inr p) \<Rightarrow>
                           (w1, cl1\<lparr>closing := closing cl1 @ [(TimeoutHandler, p)]\<rparr>))
                 else (w, cl1)))"

text \<open>The \<^verbatim>\<open>then\<close> and \<^verbatim>\<open>catch\<close> callbacks chained to a \<^verbatim>\<open>_close\<close> promise. A promise
  made by \<^verbatim>\<open>Promise.resolve()\<close> is fulfilled whatever the endpoint does.\<close>

definition on_settled :: "nat \<Rightarrow> bool \<Rightarrow> close_call \<Rightarrow> close_call" where
  "on_settled i ok cl =
     (if i < length (closing cl)
      then (let entry = closing cl ! i;
                fulfilled = (snd entry = AlreadyResolved \<or> ok);
                cl1 = cl\<lparr>closing := take i (closing cl) @ drop (Suc i) (closing cl)\<rparr>
            in (case fst entry of
                  SaveHandler \<Rightarrow>
                    if fulfilled then resolve (cl1\<lparr>closed_flag := True\<rparr>) else resolve cl1
                | TimeoutHandler \<Rightarrow> resolve cl1))
      else cl)"

definition close_step :: "world \<times> close_call \<Rightarrow> close_event \<Rightarrow> world \<times> close_call" where
  "close_step st ev =
     (case ev of
        SaveEmitted \<Rightarrow> on_save st
      | TimerFired \<Rightarrow> on_timeout st
      | Settled i ok \<Rightarrow> (fst st, on_settled i ok (snd st)))"

definition close_run :: "world \<times> close_call \<Rightarrow> close_event list \<Rightarrow> world \<times> close_call" where
  "close_run st evs = foldl close_step st evs"

section \<open>Measures used in the statements\<close>

text \<open>The number of steps a bucket contributes: the length of its list, nothing when the
  payload is not a list.\<close>

definition bucket_length :: "bucket \<Rightarrow> nat" where
  "bucket_length b = (case b_data b of None \<Rightarrow> 0 | Some xs \<Rightarrow> length xs)"

text \<open>The number a version counter stands for in a comparison.\<close>

definition version_num :: "int option \<Rightarrow> int" where
  "version_num v = (case v of None \<Rightarrow> 0 | Some n \<Rightarrow> n)"

text \<open>A sequence of \<^verbatim>\<open>_receiveSteps\<close> calls, each with its clock reading and response
  body; an exception from the \<^verbatim>\<open>sync\<close> emission does not undo the fields written.\<close>

definition receive_all :: "(int \<times> sync_data) list \<Rightarrow> syncService \<Rightarrow> syncService" where
  "receive_all calls s = foldl (\<lambda>s call. fst (receiveSteps (fst call) (snd call) s)) s calls"

definition buckets_of :: "(int \<times> sync_data) list \<Rightarrow> bucket list" where
  "buckets_of calls = concat (map (\<lambda>call. d_steps (snd call)) calls)"

text \<open>How often an error of type \<open>t\<close> is emitted by a list of effects.\<close>

definition error_count :: "ERROR_TYPE \<Rightarrow> effect list \<Rightarrow> nat" where
  "error_count t fx = length (filter (\<lambda>ev. case ev of Error t' x \<Rightarrow> t' = t | _ \<Rightarrow> False) (emitted fx))"

text \<open>A run of fetch failures handled one after the other: the effects of each failure,
  in order.\<close>

fun handleErrors :: "http_error list \<Rightarrow> pollingBackend \<Rightarrow> effect list list" where
  "handleErrors [] b = []"
| "handleErrors (e # es) b = snd (handleError e b) # handleErrors es (fst (handleError e b))"


text \<open>The version assignment at the head of one loop iteration of \<^verbatim>\<open>_receiveSteps\<close>, on
  the counter alone.\<close>

definition advance_version :: "int option \<Rightarrow> bucket \<Rightarrow> int option" where
  "advance_version v b = (if js_lt v (b_version b) then Some (b_version b) else v)"

text \<open>The closure and world right after \<^verbatim>\<open>close\<close> has returned its promise.\<close>

definition closing_world :: "syncService \<Rightarrow> pollingBackend \<Rightarrow> world \<times> close_call" where
  "closing_world s b =
     ((s, Some (save (disconnect b))),
      \<lparr> closed_flag = False, promise = Pending, timer = True, closing = [] \<rparr>)"

definition is_settled :: "close_event \<Rightarrow> bool" where
  "is_settled ev = (case ev of Settled i ok \<Rightarrow> True | _ \<Rightarrow> False)"

text \<open>What stays true of a closure while its callbacks run: there is a backend and the
  connection is not \<^verbatim>\<open>undefined\<close>, the promise is not rejected, \<^verbatim>\<open>closed\<close> is only set
  together with \<^verbatim>\<open>resolve()\<close>, and once the timer has fired the promise is resolved or a
  \<^verbatim>\<open>_close\<close> is outstanding.\<close>

definition close_inv :: "world \<times> close_call \<Rightarrow> bool" where
  "close_inv st =
     (connection (fst (fst st)) \<noteq> Undefined \<and> snd (fst st) \<noteq> None
      \<and> promise (snd st) \<noteq> Rejected
      \<and> (closed_flag (snd st) \<longrightarrow> promise (snd st) = Resolved)
      \<and> (\<not> timer (snd st) \<longrightarrow> promise (snd st) = Resolved \<or> closing (snd st) \<noteq> []))"

text \<open>A history of calls on the service, each with the clock reading at the call:
  \<^verbatim>\<open>open\<close>, \<^verbatim>\<open>sendSteps\<close> with the way its push settles, and \<^verbatim>\<open>_receiveSteps\<close>.\<close>

datatype service_call =
  CallOpen "connection option" "http_error + connection"
  | CallSendSteps push_outcome
  | CallReceiveSteps sync_data

definition apply_call :: "world \<Rightarrow> int \<times> service_call \<Rightarrow> world" where
  "apply_call w tc =
     (case snd tc of
        CallOpen initialSession api_open \<Rightarrow>
          fst (open_SyncService (fst tc) initialSession api_open w)
      | CallSendSteps outcome \<Rightarrow> (fst (sendSteps outcome (fst w)), snd w)
      | CallReceiveSteps d \<Rightarrow> (fst (receiveSteps (fst tc) d (fst w)), snd w))"

definition run_calls :: "world \<Rightarrow> (int \<times> service_call) list \<Rightarrow> world" where
  "run_calls w calls = foldl apply_call w calls"

text \<open>Whether a call is a \<^verbatim>\<open>sendSteps\<close> that makes its push (there is a connection and
  no push in flight) and whose push is fulfilled.\<close>

definition push_succeeds :: "world \<Rightarrow> service_call \<Rightarrow> bool" where
  "push_succeeds w c =
     (case c of
        CallSendSteps Pushed \<Rightarrow>
          (case connection (fst w) of Obj x \<Rightarrow> \<not> sending (fst w) | _ \<Rightarrow> False)
      | _ \<Rightarrow> False)"

text \<open>The time of the last successful push in a history that starts in \<open>w\<close>, if there was
  one; \<open>before\<close> is the time of the last one before the history.\<close>

fun last_successful_push ::
  "world \<Rightarrow> (int \<times> service_call) list \<Rightarrow> int option \<Rightarrow> int option" where
  "last_successful_push w [] before = before"
| "last_successful_push w (tc # calls) before =
     last_successful_push (apply_call w tc) calls
       (if push_succeeds w (snd tc) then Some (fst tc) else before)"

text \<open>The time of the last \<^verbatim>\<open>_receiveSteps\<close> call of a history, and \<open>t0\<close> when there is
  none.\<close>

fun last_receive :: "int \<Rightarrow> (int \<times> service_call) list \<Rightarrow> int" where
  "last_receive t0 [] = t0"
| "last_receive t0 (tc # calls) =
     last_receive (case snd tc of CallReceiveSteps d \<Rightarrow> fst tc | _ \<Rightarrow> t0) calls"

section \<open>Concrete inputs\<close>

definition example_document :: remote_document where
  "example_document = \<lparr> lastSavedVersion = 0, lastSavedVersionTime = 0 \<rparr>"

definition example_connection :: "int \<Rightarrow> connection" where
  "example_connection v =
     \<lparr> c_lastSavedVersion = v, c_document = example_document, c_state = ''## Hello world'',
       c_isPublic = False \<rparr>"

text \<open>A service constructed and opened at time 0 on a document saved at version \<open>v\<close>.\<close>

definition opened_world :: "int \<Rightarrow> world" where
  "opened_world v = fst (open_SyncService 0 None (Inr (example_connection v)) (new_world 0))"

definition response_with :: "session list \<Rightarrow> bucket list \<Rightarrow> sync_data" where
  "response_with ss bs = \<lparr> d_document = example_document, d_sessions = ss, d_steps = bs \<rparr>"

definition step_bucket :: "int \<Rightarrow> bucket" where
  "step_bucket v = \<lparr> b_version = v, b_sessionId = ''A'', b_data = Some [''stepX''] \<rparr>"

definition invalid_bucket :: "int \<Rightarrow> bucket" where
  "invalid_bucket v = \<lparr> b_version = v, b_sessionId = ''A'', b_data = None \<rparr>"

definition status_error :: "int \<Rightarrow> push_document option \<Rightarrow> http_error" where
  "status_error st doc =
     \<lparr> e_response =
         Some \<lparr> r_status = st, r_data = \<lparr> rd_document = doc, rd_outsideChange = None \<rparr> \<rparr>,
       e_code = None \<rparr>"

definition network_failure :: http_error where
  "network_failure = \<lparr> e_response = None, e_code = None \<rparr>"


text \<open>A service whose second \<^verbatim>\<open>open\<close> failed after a first one had succeeded: it has a
  backend, and \<^verbatim>\<open>undefined\<close> as its connection.\<close>

definition reopen_failed_world :: world where
  "reopen_failed_world = fst (open_SyncService 1 None (Inl network_failure) (opened_world 0))"

section \<open>Facts about \_receiveSteps\<close>

lemma foldl_push_step:
  "foldl (push_step sid) (s, ns, fx) xs =
     (s\<lparr>steps := steps s @ xs\<rparr>, ns @ map (\<lambda>st. (st, sid)) xs, fx)"
  by (induction xs arbitrary: s ns) (simp_all add: push_step_def)

lemma receive_bucket_eq:
  "receive_bucket (s, ns, fx) b =
     (let s1 = (if js_lt (version s) (b_version b) then s\<lparr>version := Some (b_version b)\<rparr> else s)
      in case b_data b of
           None \<Rightarrow> (s1, ns, fx @ [LogError ''Invalid step data, skipping step''])
         | Some xs \<Rightarrow>
             (s1\<lparr>steps := steps s1 @ xs\<rparr>, ns @ map (\<lambda>st. (st, b_sessionId b)) xs, fx))"
  by (simp add: receive_bucket_def foldl_push_step Let_def split: option.split)

text \<open>The steps that a list of buckets appends to the log.\<close>

lemma receive_bucket_steps:
  "steps (fst (receive_bucket acc b)) =
     steps (fst acc) @ (case b_data b of None \<Rightarrow> [] | Some xs \<Rightarrow> xs)"
  by (cases acc) (simp add: receive_bucket_eq Let_def split: option.split)

lemma receive_bucket_stepClientIDs:
  "stepClientIDs (fst (receive_bucket acc b)) = stepClientIDs (fst acc)"
  by (cases acc) (simp add: receive_bucket_eq Let_def split: option.split)

lemma receive_bucket_version:
  "version (fst (receive_bucket acc b)) = advance_version (version (fst acc)) b"
  by (cases acc) (simp add: receive_bucket_eq advance_version_def Let_def split: option.split)

lemma receive_bucket_connection:
  "connection (fst (receive_bucket acc b)) = connection (fst acc)"
  by (cases acc) (simp add: receive_bucket_eq Let_def split: option.split)

lemma foldl_receive_bucket_steps:
  "steps (fst (foldl receive_bucket acc bs)) =
     steps (fst acc) @ concat (map (\<lambda>b. case b_data b of None \<Rightarrow> [] | Some xs \<Rightarrow> xs) bs)"
  by (induction bs arbitrary: acc) (simp_all add: receive_bucket_steps)

lemma foldl_receive_bucket_stepClientIDs:
  "stepClientIDs (fst (foldl receive_bucket acc bs)) = stepClientIDs (fst acc)"
  by (induction bs arbitrary: acc) (simp_all add: receive_bucket_stepClientIDs)

lemma foldl_receive_bucket_version:
  "version (fst (foldl receive_bucket acc bs)) = foldl advance_version (version (fst acc)) bs"
  by (induction bs arbitrary: acc) (simp_all add: receive_bucket_version)

lemma foldl_receive_bucket_connection:
  "connection (fst (foldl receive_bucket acc bs)) = connection (fst acc)"
  by (induction bs arbitrary: acc) (simp_all add: receive_bucket_connection)

lemma receiveSteps_state:
  "fst (receiveSteps now d s) = (fst (foldl receive_bucket (s, [], []) (d_steps d)))\<lparr>lastStepPush := now\<rparr>"
  by (simp add: receiveSteps_def Let_def split: prod.split ref.split)

lemma receiveSteps_steps:
  "steps (fst (receiveSteps now d s)) =
     steps s @ concat (map (\<lambda>b. case b_data b of None \<Rightarrow> [] | Some xs \<Rightarrow> xs) (d_steps d))"
  by (simp add: receiveSteps_state foldl_receive_bucket_steps)

lemma receiveSteps_stepClientIDs:
  "stepClientIDs (fst (receiveSteps now d s)) = stepClientIDs s"
  by (simp add: receiveSteps_state foldl_receive_bucket_stepClientIDs)

lemma receiveSteps_version:
  "version (fst (receiveSteps now d s)) = foldl advance_version (version s) (d_steps d)"
  by (simp add: receiveSteps_state foldl_receive_bucket_version)

lemma receiveSteps_lastStepPush: "lastStepPush (fst (receiveSteps now d s)) = now"
  by (simp add: receiveSteps_state)

lemma receiveSteps_connection: "connection (fst (receiveSteps now d s)) = connection s"
  by (simp add: receiveSteps_state foldl_receive_bucket_connection)

text \<open>The version counter after a list of buckets.\<close>

lemma js_lt_version_num: "js_lt v n \<longleftrightarrow> version_num v < n"
  by (simp add: js_lt_def version_num_def split: option.split)

lemma version_num_advance:
  "version_num (advance_version v b) = max (version_num v) (b_version b)"
  by (auto simp: advance_version_def js_lt_def version_num_def split: option.splits)

lemma version_num_foldl_advance:
  "version_num (foldl advance_version v bs) = Max (set (version_num v # map b_version bs))"
proof -
  have "version_num (foldl advance_version v bs) = fold max (map b_version bs) (version_num v)"
    by (induction bs arbitrary: v) (simp_all add: version_num_advance max.commute)
  then show ?thesis
    by (simp only: Max.set_eq_fold)
qed

lemma foldl_advance_unchanged:
  "\<not> list_ex (\<lambda>b. js_lt v (b_version b)) bs \<Longrightarrow> foldl advance_version v bs = v"
  by (induction bs) (simp_all add: advance_version_def)

lemma foldl_advance_Some: "\<exists>m. foldl advance_version (Some k) bs = Some m"
  by (induction bs arbitrary: k) (simp_all add: advance_version_def)

lemma foldl_advance_changed:
  assumes "list_ex (\<lambda>b. js_lt v (b_version b)) bs"
  shows "foldl advance_version v bs = Some (Max (set (map b_version bs)))"
proof -
  from assms obtain b where b: "b \<in> set bs" "version_num v < b_version b"
    by (auto simp: list_ex_iff js_lt_version_num)
  let ?A = "set (map b_version bs)"
  have fin: "finite ?A" and ne: "?A \<noteq> {}" using b by auto
  have le: "b_version b \<le> Max ?A" using b(1) fin by (intro Max_ge) auto
  have lt: "version_num v < Max ?A" using b(2) le by linarith
  have "version_num (foldl advance_version v bs) = Max (insert (version_num v) ?A)"
    by (simp add: version_num_foldl_advance)
  also have "\<dots> = max (version_num v) (Max ?A)" using fin ne by (rule Max_insert)
  also have "\<dots> = Max ?A" using lt by linarith
  finally have num: "version_num (foldl advance_version v bs) = Max ?A" .
  have "foldl advance_version v bs \<noteq> None"
  proof (cases v)
    case None
    then have "0 < Max ?A" using lt by (simp add: version_num_def)
    then show ?thesis using num
      by (cases "foldl advance_version v bs") (auto simp: version_num_def)
  next
    case (Some k)
    then show ?thesis using foldl_advance_Some[of k bs] by auto
  qed
  then show ?thesis using num
    by (cases "foldl advance_version v bs") (auto simp: version_num_def)
qed

lemma foldl_advance_eq:
  "foldl advance_version v bs =
     (if list_ex (\<lambda>b. js_lt v (b_version b)) bs
      then Some (Max (set (map b_version bs))) else v)"
  by (simp add: foldl_advance_changed foldl_advance_unchanged)

lemma receive_all_version:
  "version (receive_all calls s) = foldl advance_version (version s) (buckets_of calls)"
  unfolding receive_all_def buckets_of_def
  by (induction calls arbitrary: s) (simp_all add: receiveSteps_version)

lemma receive_all_steps:
  "steps (receive_all calls s) =
     steps s @ concat (map (\<lambda>b. case b_data b of None \<Rightarrow> [] | Some xs \<Rightarrow> xs) (buckets_of calls))"
  unfolding receive_all_def buckets_of_def
  by (induction calls arbitrary: s) (simp_all add: receiveSteps_steps)

lemma length_payloads:
  "length (concat (map (\<lambda>b. case b_data b of None \<Rightarrow> [] | Some xs \<Rightarrow> xs) bs)) =
     sum_list (map bucket_length bs)"
  by (induction bs) (simp_all add: bucket_length_def split: option.split)

lemma opened_world_eq:
  "opened_world v =
     (\<lparr> connection = Obj (example_connection v), sessions = [], steps = [], stepClientIDs = [],
        lastStepPush = 0, version = Some v, sending = False, changeHandlers = 1 \<rparr>,
      Some (new_PollingBackend 0))"
  by (simp add: opened_world_def open_SyncService_def new_world_def new_SyncService_def
        example_connection_def Let_def)

section \<open>The step log and the client-id log\<close>

text \<open>
  Claim C1 says that \<^verbatim>\<open>steps\<close> and \<^verbatim>\<open>stepClientIDs\<close> have equal length after every
  operation, that every step appended by \<^verbatim>\<open>_receiveSteps\<close> has an entry in the client-id
  log, and that \<^verbatim>\<open>stepsSince\<close> returns two slices of equal length. \<^verbatim>\<open>_receiveSteps\<close>
  pushes the session id into the \<^verbatim>\<open>sync\<close> event only, never into \<^verbatim>\<open>stepClientIDs\<close>:
  on a service opened at version 0, one bucket with one step leaves a step log of
  length 1 beside a client-id log of length 0, and \<^verbatim>\<open>stepsSince(0)\<close> returns one step
  and no client id.
\<close>

theorem client_id_log_not_appended:
  "length (steps (fst (receiveSteps 1 (response_with [] [step_bucket 1]) (fst (opened_world 0))))) = 1
   \<and> length (stepClientIDs
        (fst (receiveSteps 1 (response_with [] [step_bucket 1]) (fst (opened_world 0))))) = 0
   \<and> length (ss_steps (stepsSince 0
        (fst (receiveSteps 1 (response_with [] [step_bucket 1]) (fst (opened_world 0)))))) = 1
   \<and> length (ss_clientIDs (stepsSince 0
        (fst (receiveSteps 1 (response_with [] [step_bucket 1]) (fst (opened_world 0)))))) = 0"
  by (simp add: receiveSteps_steps receiveSteps_stepClientIDs stepsSince_def js_slice_def
        opened_world_eq response_with_def step_bucket_def)

section \<open>Log length and version counter over a sequence of calls\<close>

text \<open>
  Claim C2, as stated, makes the version counter equal to the maximum bucket version
  seen. A service opened at version 10 that receives a bucket of version 5 keeps
  version 10.
\<close>

theorem version_not_max_bucket_version_counterexample:
  "version (receive_all [(1, response_with [] [step_bucket 5])] (fst (opened_world 10)))
     \<noteq> Some (Max (set (map b_version (buckets_of [(1, response_with [] [step_bucket 5])]))))"
  by (simp add: receive_all_version buckets_of_def advance_version_def js_lt_def opened_world_eq
        response_with_def step_bucket_def)

text \<open>
  Claim C2, amended: for every sequence of \<^verbatim>\<open>_receiveSteps\<close> calls, the step log grows
  by the sum of the lengths of the buckets' data lists (a payload that is not a list
  adds nothing); the version counter is unchanged when no bucket version exceeds it and
  is the maximum bucket version seen otherwise, so that, reading \<^verbatim>\<open>null\<close> as 0, it is
  the maximum of its previous value and the bucket versions seen; and no call decreases
  it.
\<close>

theorem receiveSteps_log_and_version:
  "length (steps (receive_all calls s)) =
     length (steps s) + sum_list (map bucket_length (buckets_of calls))
   \<and> version (receive_all calls s) =
       (if list_ex (\<lambda>b. js_lt (version s) (b_version b)) (buckets_of calls)
        then Some (Max (set (map b_version (buckets_of calls)))) else version s)
   \<and> version_num (version (receive_all calls s)) =
       Max (set (version_num (version s) # map b_version (buckets_of calls)))
   \<and> version_num (version s) \<le> version_num (version (fst (receiveSteps now d s)))"
proof -
  have "length (steps (receive_all calls s)) =
          length (steps s) + sum_list (map bucket_length (buckets_of calls))"
    by (simp add: receive_all_steps length_payloads)
  moreover have "version (receive_all calls s) =
       (if list_ex (\<lambda>b. js_lt (version s) (b_version b)) (buckets_of calls)
        then Some (Max (set (map b_version (buckets_of calls)))) else version s)"
    by (simp only: receive_all_version foldl_advance_eq)
  moreover have "version_num (version (receive_all calls s)) =
       Max (set (version_num (version s) # map b_version (buckets_of calls)))"
    by (simp only: receive_all_version version_num_foldl_advance)
  moreover have "version_num (version s) \<le> version_num (version (fst (receiveSteps now d s)))"
    by (simp add: receiveSteps_version version_num_foldl_advance)
  ultimately show ?thesis by blast
qed

theorem receiveSteps_log_and_version_witness:
  "length (steps (receive_all
      [(1, response_with [] [step_bucket 1]),
       (2, response_with [] [invalid_bucket 3, step_bucket 2])] (fst (opened_world 0)))) = 2
   \<and> version (receive_all
      [(1, response_with [] [step_bucket 1]),
       (2, response_with [] [invalid_bucket 3, step_bucket 2])] (fst (opened_world 0))) = Some 3"
  using receiveSteps_log_and_version [of
      "[(1, response_with [] [step_bucket 1]),
        (2, response_with [] [invalid_bucket 3, step_bucket 2])]"
      "fst (opened_world 0)" 0 "response_with [] []"]
  by (simp add: opened_world_eq buckets_of_def response_with_def step_bucket_def
        invalid_bucket_def bucket_length_def js_lt_def)

section \<open>A bucket whose payload is not a list\<close>

text \<open>
  Claim C10: in \<^verbatim>\<open>_receiveSteps\<close>, a bucket whose data is not a list still advances the
  version counter when its version is higher, because the version is assigned before
  the payload is checked; only the appending of steps is skipped. This is stated for one
  loop iteration and for a call with that bucket alone.
\<close>

theorem invalid_bucket_advances_version:
  assumes "b_data b = None" "js_lt (version s) (b_version b)"
  shows "receive_bucket (s, ns, fx) b =
           (s\<lparr>version := Some (b_version b)\<rparr>, ns,
            fx @ [LogError ''Invalid step data, skipping step''])
       \<and> version (fst (receiveSteps now (d\<lparr>d_steps := [b]\<rparr>) s)) = Some (b_version b)
       \<and> steps (fst (receiveSteps now (d\<lparr>d_steps := [b]\<rparr>) s)) = steps s"
  using assms
  by (simp add: receive_bucket_eq receiveSteps_steps receiveSteps_version advance_version_def)

theorem invalid_bucket_advances_version_witness:
  "b_data (invalid_bucket 7) = None
   \<and> js_lt (version (fst (opened_world 0))) (b_version (invalid_bucket 7))
   \<and> version (fst (receiveSteps 1 (response_with [] [invalid_bucket 7]) (fst (opened_world 0))))
       = Some 7
   \<and> steps (fst (receiveSteps 1 (response_with [] [invalid_bucket 7]) (fst (opened_world 0)))) = []"
  using invalid_bucket_advances_version [of "invalid_bucket 7" "fst (opened_world 0)" "[]" "[]" 1
      "response_with [] []"]
  by (simp add: invalid_bucket_def opened_world_eq js_lt_def response_with_def)

section \<open>Failing open\<close>

lemma open_failed:
  "open_SyncService now None (Inl e) (s, bk) =
     ((s\<lparr>changeHandlers := changeHandlers s + 1, connection := Undefined\<rparr>, bk),
      emitError e, Inl TypeError)"
  by (simp add: open_SyncService_def Let_def)

lemma emitError_cases:
  "emitError e = [Emit (Error CONNECTION_FAILED NoData)]
   \<or> (\<exists>r. emitError e = [Emit (Error LOAD_ERROR (ResponseData r))])"
  by (simp add: emitError_def split: option.split)

text \<open>
  Claim C3 says that a failing \<^verbatim>\<open>open(fileId)\<close> emits an error event of type
  \<^verbatim>\<open>LOAD_ERROR\<close> or \<^verbatim>\<open>CONNECTION_FAILED\<close> and never throws or rejects. When the session
  endpoint answers 404 for a freshly constructed service, \<^verbatim>\<open>open\<close> emits \<^verbatim>\<open>LOAD_ERROR\<close>,
  stores \<^verbatim>\<open>undefined\<close> as the connection and then fails with a \<^verbatim>\<open>TypeError\<close>, which
  rejects the promise it returned (\<open>open_failed\<close> shows the same for every rejection).
\<close>

theorem open_rejects_after_failed_session_open:
  "open_SyncService 0 None (Inl (status_error 404 None)) (new_world 0) =
     ((new_SyncService 0\<lparr>changeHandlers := 1, connection := Undefined\<rparr>, None),
      [Emit (Error LOAD_ERROR
         (ResponseData
            \<lparr> r_status = 404, r_data = \<lparr> rd_document = None, rd_outsideChange = None \<rparr> \<rparr>))],
      Inl TypeError)"
  by (simp add: new_world_def open_failed emitError_def status_error_def new_SyncService_def)

section \<open>Failing push\<close>

text \<open>
  Claim C4: when the push made by \<^verbatim>\<open>sendSteps\<close> fails with status 403 and the
  payload's \<^verbatim>\<open>document.currentVersion\<close> equals the local version, \<^verbatim>\<open>PUSH_FAILURE\<close> is
  emitted and the transient notice is shown; when it fails with status 403 and the
  payload has no document, there are only log lines and no \<^verbatim>\<open>PUSH_FAILURE\<close>; when it
  fails without a response or is aborted, \<^verbatim>\<open>CONNECTION_FAILED\<close> is emitted. The push is
  made when there is a connection and no push is in flight.
\<close>

theorem sendSteps_push_failures:
  assumes "connection s = Obj c" "\<not> sending s"
  shows "(e_response e1 = Some r1 \<and> e_code e1 \<noteq> Some ''ECONNABORTED'' \<and> r_status r1 = 403
          \<and> rd_document (r_data r1) = Some doc \<and> currentVersion doc = Some n
          \<and> version s = Some n
          \<longrightarrow> snd (sendSteps (PushRejected e1) s) =
                [Emit (StateChangeDirty True),
                 LogError ''failed to apply steps due to collission, retrying'',
                 Emit (Error PUSH_FAILURE NoData),
                 ShowTemporary ''Changes could not be sent yet''])
       \<and> (e_response e2 = Some r2 \<and> e_code e2 \<noteq> Some ''ECONNABORTED'' \<and> r_status r2 = 403
          \<and> rd_document (r_data r2) = None
          \<longrightarrow> snd (sendSteps (PushRejected e2) s) =
                [Emit (StateChangeDirty True),
                 LogError ''failed to apply steps due to collission, retrying'',
                 LogError ''failed to write to document - not allowed''])
       \<and> (no_response e3
          \<longrightarrow> snd (sendSteps (PushRejected e3) s) =
                [Emit (StateChangeDirty True),
                 LogError ''failed to apply steps due to collission, retrying'',
                 Emit (Error CONNECTION_FAILED NoData)])"
  using assms
  by (auto simp: sendSteps_def push_rejected_def Let_def currentVersion_is_def no_response_def
           split: option.split)

theorem sendSteps_push_failures_witness:
  "snd (sendSteps (PushRejected (status_error 403 (Some \<lparr> currentVersion = Some 3 \<rparr>)))
         (fst (opened_world 3))) =
      [Emit (StateChangeDirty True),
       LogError ''failed to apply steps due to collission, retrying'',
       Emit (Error PUSH_FAILURE NoData),
       ShowTemporary ''Changes could not be sent yet'']
   \<and> snd (sendSteps (PushRejected (status_error 403 None)) (fst (opened_world 3))) =
      [Emit (StateChangeDirty True),
       LogError ''failed to apply steps due to collission, retrying'',
       LogError ''failed to write to document - not allowed'']
   \<and> snd (sendSteps (PushRejected network_failure) (fst (opened_world 3))) =
      [Emit (StateChangeDirty True),
       LogError ''failed to apply steps due to collission, retrying'',
       Emit (Error CONNECTION_FAILED NoData)]"
  using sendSteps_push_failures [of "fst (opened_world 3)" "example_connection 3"
      "status_error 403 (Some \<lparr> currentVersion = Some 3 \<rparr>)"
      "\<lparr> r_status = 403,
         r_data = \<lparr> rd_document = Some \<lparr> currentVersion = Some 3 \<rparr>, rd_outsideChange = None \<rparr> \<rparr>"
      "\<lparr> currentVersion = Some 3 \<rparr>" 3
      "status_error 403 None"
      "\<lparr> r_status = 403, r_data = \<lparr> rd_document = None, rd_outsideChange = None \<rparr> \<rparr>"
      network_failure]
  by (simp add: opened_world_eq status_error_def network_failure_def no_response_def)

section \<open>Fetch failures without a response\<close>

lemma handleError_no_response: "no_response e \<Longrightarrow> handleError e b = network_error b"
  by (auto simp: handleError_def no_response_def split: option.split)

lemma network_error_counter: "fetchRetryCounter (fst (network_error b)) = fetchRetryCounter b + 1"
  by (simp add: network_error_def Let_def)

lemma network_error_emitted:
  "emitted (snd (network_error b)) =
     (if fetchRetryCounter b \<ge> 5 then [Error CONNECTION_FAILED RetryFalse] else [])"
  by (simp add: network_error_def Let_def emitted_def MAX_RETRY_FETCH_COUNT_def)

lemma handleErrors_nth:
  assumes "list_all no_response es" "i < length es"
  shows "emitted (handleErrors es b ! i) =
           (if fetchRetryCounter b + int i \<ge> 5 then [Error CONNECTION_FAILED RetryFalse] else [])"
  using assms
proof (induction es arbitrary: b i)
  case Nil
  then show ?case by simp
next
  case (Cons e es)
  then have e: "no_response e" and es: "list_all no_response es" by simp_all
  show ?case
  proof (cases i)
    case 0
    then show ?thesis by (simp add: handleError_no_response[OF e] network_error_emitted)
  next
    case (Suc j)
    then have "j < length es" using Cons.prems by simp
    from Cons.IH[OF es this, of "fst (network_error b)"] show ?thesis
      by (simp add: Suc handleError_no_response[OF e] network_error_counter add.assoc)
  qed
qed

text \<open>The retry counter is zero in a new backend and after every response.\<close>

lemma new_PollingBackend_counter: "fetchRetryCounter (new_PollingBackend now) = 0"
  by (simp add: new_PollingBackend_def)

lemma handleResponse_resets_counter:
  "fetchRetryCounter (snd (fst (handleResponse now d (s, b)))) = 0"
  by (simp add: handleResponse_def Let_def maximumRefetchTimer_def increaseRefetchTimer_def
        resetRefetchTimer_def split: prod.split sum.split)

text \<open>
  Claim C5: in a run of consecutive fetch failures without a response (or aborted),
  counted from a retry counter of zero, that is with no response in between, the first
  five failures emit no \<^verbatim>\<open>CONNECTION_FAILED\<close> and the sixth emits it exactly once. The
  failure with index \<open>i\<close> (from 0) emits nothing for \<open>i < 5\<close> and the one event from
  then on.
\<close>

theorem fetch_retry_threshold:
  assumes "fetchRetryCounter b = 0" "list_all no_response es" "i < length es"
  shows "emitted (handleErrors es b ! i) =
           (if i < 5 then [] else [Error CONNECTION_FAILED RetryFalse])
       \<and> error_count CONNECTION_FAILED (handleErrors es b ! i) = (if i < 5 then 0 else 1)"
  using handleErrors_nth[OF assms(2,3), of b] assms(1)
  by (auto simp: error_count_def)

theorem fetch_retry_threshold_witness:
  "fetchRetryCounter (new_PollingBackend 0) = 0
   \<and> list_all no_response
        [network_failure, network_failure, network_failure, network_failure, network_failure,
         network_failure]
   \<and> error_count CONNECTION_FAILED
        (handleErrors
           [network_failure, network_failure, network_failure, network_failure, network_failure,
            network_failure] (new_PollingBackend 0) ! 4) = 0
   \<and> error_count CONNECTION_FAILED
        (handleErrors
           [network_failure, network_failure, network_failure, network_failure, network_failure,
            network_failure] (new_PollingBackend 0) ! 5) = 1"
  using fetch_retry_threshold [of "new_PollingBackend 0"
      "[network_failure, network_failure, network_failure, network_failure, network_failure,
        network_failure]" 4]
    fetch_retry_threshold [of "new_PollingBackend 0"
      "[network_failure, network_failure, network_failure, network_failure, network_failure,
        network_failure]" 5]
  by (simp add: new_PollingBackend_def network_failure_def no_response_def)

section \<open>Idle check\<close>

text \<open>Where \<^verbatim>\<open>lastStepPush\<close> comes from: the constructor and every \<^verbatim>\<open>_receiveSteps\<close> set
  it to the current time (\<open>receiveSteps_lastStepPush\<close>), also a call that appends
  nothing; \<^verbatim>\<open>open\<close>, \<^verbatim>\<open>sendSteps\<close> and the \<^verbatim>\<open>change\<close> subscription leave it alone.\<close>

lemma new_SyncService_lastStepPush: "lastStepPush (new_SyncService now) = now"
  by (simp add: new_SyncService_def)

lemma sendSteps_lastStepPush: "lastStepPush (fst (sendSteps outcome s)) = lastStepPush s"
  by (simp add: sendSteps_def push_rejected_def Let_def
        split: push_outcome.split option.split prod.split)

lemma open_lastStepPush:
  "lastStepPush (fst (fst (open_SyncService now initialSession api_open w))) = lastStepPush (fst w)"
  by (cases w)
     (simp add: open_SyncService_def Let_def split: option.split sum.split ref.split)

lemma on_change_lastStepPush: "lastStepPush (on_change ss s) = lastStepPush s"
  by (simp add: on_change_def)

lemma apply_call_lastStepPush:
  "lastStepPush (fst (apply_call w tc)) =
     (case snd tc of CallReceiveSteps d \<Rightarrow> fst tc | _ \<Rightarrow> lastStepPush (fst w))"
  by (simp add: apply_call_def open_lastStepPush sendSteps_lastStepPush receiveSteps_lastStepPush
        split: service_call.split)

lemma run_calls_lastStepPush:
  "lastStepPush (fst (run_calls w calls)) = last_receive (lastStepPush (fst w)) calls"
  unfolding run_calls_def
  by (induction calls arbitrary: w) (simp_all add: apply_call_lastStepPush)

lemma checkIdle_threshold:
  "(fst (checkIdle now s) \<longleftrightarrow> real_of_int (now - lastStepPush s) / (1000 * 60) > 1440)
   \<and> (fst (checkIdle now s) \<longleftrightarrow> now - lastStepPush s > 1440 * 60 * 1000)
   \<and> emitted (snd (checkIdle now s)) = (if fst (checkIdle now s) then [Idle] else [])
   \<and> snd (checkIdle now s) =
       (if fst (checkIdle now s)
        then [LogDebug ''[SyncService] Document is idle, suspending connection'', Emit Idle]
        else [])"
  by (simp add: checkIdle_def Let_def IDLE_TIMEOUT_def emitted_def field_simps)

lemma checkIdle_same_lastStepPush:
  "lastStepPush s' = lastStepPush s \<Longrightarrow> checkIdle now s' = checkIdle now s"
  by (simp add: checkIdle_def)

text \<open>
  Claim C9, as stated, measures the time since the last successful push. A service
  opened at time 0 whose push succeeds at 86400000 ms is idle one millisecond later,
  because a fulfilled push does not write \<^verbatim>\<open>lastStepPush\<close>; and a service whose only
  push succeeded at time 0 and that received a collaborator's steps at 86400000 ms is not
  idle one millisecond later, more than 1440 minutes after that push.
\<close>

theorem checkIdle_since_push_counterexample:
  "last_successful_push (opened_world 0) [(86400000, CallSendSteps Pushed)] None = Some 86400000
   \<and> \<not> real_of_int (86400001 - 86400000) / 1000 / 60 > 1440
   \<and> fst (checkIdle 86400001
        (fst (run_calls (opened_world 0) [(86400000, CallSendSteps Pushed)])))
   \<and> emitted (snd (checkIdle 86400001
        (fst (run_calls (opened_world 0) [(86400000, CallSendSteps Pushed)])))) = [Idle]
   \<and> last_successful_push (opened_world 0)
        [(0, CallSendSteps Pushed),
         (86400000, CallReceiveSteps (response_with [] [step_bucket 1]))] None = Some 0
   \<and> real_of_int (86400001 - 0) / 1000 / 60 > 1440
   \<and> \<not> fst (checkIdle 86400001
        (fst (run_calls (opened_world 0)
           [(0, CallSendSteps Pushed),
            (86400000, CallReceiveSteps (response_with [] [step_bucket 1]))])))"
  by (simp add: run_calls_def apply_call_def push_succeeds_def opened_world_eq sendSteps_def
        checkIdle_def IDLE_TIMEOUT_def emitted_def receiveSteps_lastStepPush Let_def)

text \<open>
  Claim C9, amended: \<^verbatim>\<open>checkIdle()\<close> returns true and emits \<^verbatim>\<open>idle\<close> if and only if the
  time elapsed since the last call of \<^verbatim>\<open>_receiveSteps\<close>, or since the construction of the
  service when there was none, exceeds the idle threshold of 1440 minutes; otherwise it
  returns false and emits nothing. This holds after every history of \<^verbatim>\<open>open\<close>,
  \<^verbatim>\<open>sendSteps\<close> and \<^verbatim>\<open>_receiveSteps\<close> calls, whatever way the pushes settle; the elapsed
  time is given in minutes and, equivalently, in milliseconds.
\<close>

theorem checkIdle_since_last_receive:
  "(fst (checkIdle now (fst (run_calls (new_world t0) calls))) \<longleftrightarrow>
      real_of_int (now - last_receive t0 calls) / (1000 * 60) > 1440)
   \<and> (fst (checkIdle now (fst (run_calls (new_world t0) calls))) \<longleftrightarrow>
      now - last_receive t0 calls > 1440 * 60 * 1000)
   \<and> emitted (snd (checkIdle now (fst (run_calls (new_world t0) calls)))) =
       (if fst (checkIdle now (fst (run_calls (new_world t0) calls))) then [Idle] else [])
   \<and> snd (checkIdle now (fst (run_calls (new_world t0) calls))) =
       (if fst (checkIdle now (fst (run_calls (new_world t0) calls)))
        then [LogDebug ''[SyncService] Document is idle, suspending connection'', Emit Idle]
        else [])"
proof -
  have eq: "lastStepPush (fst (run_calls (new_world t0) calls)) = last_receive t0 calls"
    by (simp add: run_calls_lastStepPush new_world_def new_SyncService_lastStepPush)
  show ?thesis
    using checkIdle_threshold [of now "fst (run_calls (new_world t0) calls)"]
    unfolding eq .
qed

theorem checkIdle_since_last_receive_witness:
  "last_receive 0
      [(1, CallOpen None (Inr (example_connection 0))),
       (5, CallReceiveSteps (response_with [] [step_bucket 1])),
       (10, CallSendSteps Pushed)] = 5
   \<and> fst (checkIdle 86400006 (fst (run_calls (new_world 0)
        [(1, CallOpen None (Inr (example_connection 0))),
         (5, CallReceiveSteps (response_with [] [step_bucket 1])),
         (10, CallSendSteps Pushed)])))
   \<and> \<not> fst (checkIdle 86400005 (fst (run_calls (new_world 0)
        [(1, CallOpen None (Inr (example_connection 0))),
         (5, CallReceiveSteps (response_with [] [step_bucket 1])),
         (10, CallSendSteps Pushed)])))"
proof -
  have lr: "last_receive 0
      [(1, CallOpen None (Inr (example_connection 0))),
       (5, CallReceiveSteps (response_with [] [step_bucket 1])),
       (10, CallSendSteps Pushed)] = 5"
    by simp
  have late: "(86400006::int) - 5 > 1440 * 60 * 1000"
    and early: "\<not> (86400005::int) - 5 > 1440 * 60 * 1000"
    by simp_all
  note at_late = checkIdle_since_last_receive [of 86400006 0
      "[(1, CallOpen None (Inr (example_connection 0))),
        (5, CallReceiveSteps (response_with [] [step_bucket 1])),
        (10, CallSendSteps Pushed)]", unfolded lr, THEN conjunct2, THEN conjunct1]
  note at_early = checkIdle_since_last_receive [of 86400005 0
      "[(1, CallOpen None (Inr (example_connection 0))),
        (5, CallReceiveSteps (response_with [] [step_bucket 1])),
        (10, CallSendSteps Pushed)]", unfolded lr, THEN conjunct2, THEN conjunct1]
  have idle: "fst (checkIdle 86400006 (fst (run_calls (new_world 0)
        [(1, CallOpen None (Inr (example_connection 0))),
         (5, CallReceiveSteps (response_with [] [step_bucket 1])),
         (10, CallSendSteps Pushed)])))"
    using at_late late by (rule iffD2)
  have busy: "\<not> fst (checkIdle 86400005 (fst (run_calls (new_world 0)
        [(1, CallOpen None (Inr (example_connection 0))),
         (5, CallReceiveSteps (response_with [] [step_bucket 1])),
         (10, CallSendSteps Pushed)])))"
    using early by (simp only: at_early not_False_eq_True)
  from lr idle busy show ?thesis by (intro conjI)
qed

section \<open>Responses without steps\<close>

lemma checkIdle_on_change: "checkIdle now (on_change ss s) = checkIdle now s"
  by (rule checkIdle_same_lastStepPush) (rule on_change_lastStepPush)

lemma handleResponse_empty:
  assumes "d_steps d = []"
  shows "handleResponse now d (s, b) =
    (let doc = d_document d;
         saved = js_lt (version s) (lastSavedVersion doc);
         b2 = (if saved then b\<lparr>fetchRetryCounter := 0, lastSave := lastSavedVersionTime doc\<rparr>
               else b\<lparr>fetchRetryCounter := 0\<rparr>);
         b3 = (if \<not> initialLoadingFinished b
               then b2\<lparr>initialLoadingFinished := True, lastSave := lastSavedVersionTime doc\<rparr>
               else b2);
         fx1 = (if saved then [LogDebug ''Saved document'', Emit (Save doc (d_sessions d))]
                else [])
               @ [Emit (Change doc (d_sessions d))];
         s1 = on_change (d_sessions d) s
     in if fst (checkIdle now s) then ((s1, b3), fx1 @ snd (checkIdle now s), Inr ())
        else ((s1, if length (alive now (d_sessions d)) < 2 then maximumRefetchTimer b3
                   else increaseRefetchTimer b3),
              fx1 @ snd (checkIdle now s)
                @ [Emit (StateChangeDirty False), Emit (StateChangeInitialLoading True)],
              Inr ()))"
  using assms by (simp add: handleResponse_def Let_def checkIdle_on_change)



text \<open>With an empty steps array the service after the call is the service after its
  \<^verbatim>\<open>change\<close> subscription.\<close>

lemma empty_response_service:
  assumes "d_steps d = []"
  shows "fst (fst (handleResponse now d (s, b))) = on_change (d_sessions d) s"
  using assms by (simp add: handleResponse_empty Let_def)

text \<open>A response sets \<^verbatim>\<open>lastStepPush\<close> exactly when it carries steps, through
  \<^verbatim>\<open>_receiveSteps\<close>.\<close>

lemma handleResponse_lastStepPush:
  "lastStepPush (fst (fst (handleResponse now d (s, b)))) =
     (if d_steps d = [] then lastStepPush s else now)"
proof (cases "d_steps d = []")
  case True
  then show ?thesis by (simp add: empty_response_service on_change_lastStepPush)
next
  case False
  obtain s2 fx2 r where rs: "receiveSteps now d (on_change (d_sessions d) s) = (s2, fx2, r)"
    by (cases "receiveSteps now d (on_change (d_sessions d) s)") auto
  have "lastStepPush s2 = now"
    using receiveSteps_lastStepPush[of now d "on_change (d_sessions d) s"] by (simp add: rs)
  then show ?thesis using False
    by (cases r) (simp_all add: handleResponse_def Let_def rs)
qed








section \<open>Closing\<close>

lemma close_internal_ok:
  assumes "connection s \<noteq> Undefined"
  shows "\<exists>b' p. close_internal (s, Some b) = ((s, Some b'), Inr p)"
  using assms by (cases "connection s") (simp_all add: close_internal_def)

lemma promise_resolve: "promise cl \<noteq> Rejected \<Longrightarrow> promise (resolve cl) = Resolved"
  by (cases "promise cl") (simp_all add: resolve_def)

lemma resolve_fields:
  "closed_flag (resolve cl) = closed_flag cl" "timer (resolve cl) = timer cl"
  "closing (resolve cl) = closing cl"
  by (simp_all add: resolve_def)

text \<open>Whichever way an outstanding \<^verbatim>\<open>_close\<close> promise settles, its callback resolves.\<close>

lemma on_settled_resolves:
  "i < length (closing cl) \<Longrightarrow> promise cl \<noteq> Rejected \<Longrightarrow>
     promise (on_settled i ok cl) = Resolved"
  by (auto simp: on_settled_def Let_def promise_resolve split: origin.split)

lemma on_settled_invalid: "\<not> i < length (closing cl) \<Longrightarrow> on_settled i ok cl = cl"
  by (simp add: on_settled_def)

lemma close_inv_step:
  assumes "close_inv st"
  shows "close_inv (close_step st ev)"
proof -
  obtain s bk cl where st: "st = ((s, bk), cl)" by (cases st) auto
  from assms st obtain b where bk: "bk = Some b" and conn: "connection s \<noteq> Undefined"
    by (auto simp: close_inv_def)
  from close_internal_ok[OF conn, of b] obtain b' p
    where ci: "close_internal (s, Some b) = ((s, Some b'), Inr p)" by blast
  show ?thesis
  proof (cases ev)
    case SaveEmitted
    then show ?thesis using assms
      by (auto simp: close_step_def on_save_def st bk ci close_inv_def)
  next
    case TimerFired
    then show ?thesis using assms
      by (auto simp: close_step_def on_timeout_def st bk ci close_inv_def Let_def)
  next
    case (Settled i ok)
    show ?thesis
    proof (cases "i < length (closing cl)")
      case True
      then have "promise (on_settled i ok cl) = Resolved"
        using assms st by (intro on_settled_resolves) (auto simp: close_inv_def)
      then show ?thesis using assms
        by (auto simp: close_step_def Settled st close_inv_def)
    next
      case False
      then show ?thesis using assms
        by (simp add: close_step_def Settled st on_settled_invalid)
    qed
  qed
qed

lemma close_inv_run: "close_inv st \<Longrightarrow> close_inv (close_run st evs)"
  unfolding close_run_def
  by (induction evs arbitrary: st) (simp_all add: close_inv_step)

lemma close_run_snoc: "close_run st (evs @ [ev]) = close_step (close_run st evs) ev"
  by (simp add: close_run_def)

text \<open>Only the callbacks of a settled \<^verbatim>\<open>_close\<close> promise call \<^verbatim>\<open>resolve\<close>.\<close>

lemma pending_until_settled:
  assumes "promise (snd st) = Pending" "\<not> list_ex is_settled evs"
  shows "promise (snd (close_run st evs)) = Pending"
  using assms
proof (induction evs rule: rev_induct)
  case Nil
  then show ?case by (simp add: close_run_def)
next
  case (snoc ev evs)
  then have IH: "promise (snd (close_run st evs)) = Pending" and ev: "\<not> is_settled ev"
    by simp_all
  obtain w cl where r: "close_run st evs = (w, cl)" by (cases "close_run st evs") auto
  show ?case using IH ev
    by (cases ev)
       (auto simp: close_run_snoc r close_step_def on_save_def on_timeout_def Let_def
             is_settled_def split: prod.split sum.split)
qed

text \<open>Once a \<^verbatim>\<open>save\<close> event or the timer has come, the promise is resolved or a
  \<^verbatim>\<open>_close\<close> is outstanding.\<close>

lemma started_closing:
  assumes "close_inv st" "SaveEmitted \<in> set evs \<or> TimerFired \<in> set evs"
  shows "promise (snd (close_run st evs)) = Resolved \<or> closing (snd (close_run st evs)) \<noteq> []"
  using assms(2)
proof (induction evs rule: rev_induct)
  case Nil
  then show ?case by simp
next
  case (snoc ev evs)
  obtain s bk cl where r: "close_run st evs = ((s, bk), cl)"
    by (cases "close_run st evs") auto
  have inv: "close_inv ((s, bk), cl)"
    using close_inv_run[OF assms(1), of evs] by (simp add: r)
  then obtain b where bk: "bk = Some b" and conn: "connection s \<noteq> Undefined"
    by (auto simp: close_inv_def)
  from close_internal_ok[OF conn, of b] obtain b' p
    where ci: "close_internal (s, Some b) = ((s, Some b'), Inr p)" by blast
  show ?case
  proof (cases ev)
    case SaveEmitted
    then show ?thesis
      by (simp add: close_run_snoc r close_step_def on_save_def bk ci)
  next
    case TimerFired
    then show ?thesis using inv
      by (auto simp: close_run_snoc r close_step_def on_timeout_def bk ci close_inv_def Let_def)
  next
    case (Settled i ok)
    show ?thesis
    proof (cases "i < length (closing cl)")
      case True
      then have "promise (on_settled i ok cl) = Resolved"
        using inv by (intro on_settled_resolves) (auto simp: close_inv_def)
      then show ?thesis by (simp add: close_run_snoc r close_step_def Settled)
    next
      case False
      have "SaveEmitted \<in> set evs \<or> TimerFired \<in> set evs"
        using snoc.prems Settled by auto
      then show ?thesis using snoc.IH False
        by (simp add: close_run_snoc r close_step_def Settled on_settled_invalid)
    qed
  qed
qed

text \<open>
  Claim C8 says that every call to \<^verbatim>\<open>close()\<close> resolves and never rejects. On a
  service that has no backend, as after the constructor or after a first \<^verbatim>\<open>open\<close> that
  failed, \<^verbatim>\<open>close()\<close> throws at \<^verbatim>\<open>this.backend.disconnect()\<close> and returns no promise,
  although \<^verbatim>\<open>save\<close> guards a missing backend and \<^verbatim>\<open>_close\<close> guards a missing
  connection. On a service with a backend whose connection is \<^verbatim>\<open>undefined\<close>, the state
  that a later failing \<^verbatim>\<open>open\<close> leaves, the guard \<^verbatim>\<open>=== null\<close> of \<^verbatim>\<open>_close\<close> does not
  hold and \<^verbatim>\<open>_close\<close> throws inside the timer and \<^verbatim>\<open>save\<close> callbacks: after both, the
  promise is still pending, the timer is spent and no \<^verbatim>\<open>_close\<close> is outstanding.
\<close>

theorem close_throws_or_stays_pending:
  "close (new_world 0) = Inl TypeError
   \<and> connection (fst reopen_failed_world) = Undefined
   \<and> close reopen_failed_world =
       Inr (fst (closing_world (fst reopen_failed_world) (new_PollingBackend 0)),
            snd (closing_world (fst reopen_failed_world) (new_PollingBackend 0)),
            [SetTimeout 2000])
   \<and> promise (snd (close_run
         (closing_world (fst reopen_failed_world) (new_PollingBackend 0))
         [TimerFired, SaveEmitted])) = Pending
   \<and> closing (snd (close_run
         (closing_world (fst reopen_failed_world) (new_PollingBackend 0))
         [TimerFired, SaveEmitted])) = []
   \<and> \<not> timer (snd (close_run
         (closing_world (fst reopen_failed_world) (new_PollingBackend 0))
         [TimerFired, SaveEmitted]))"
  by (simp add: close_def new_world_def reopen_failed_world_def opened_world_eq open_failed
        closing_world_def close_run_def close_step_def on_timeout_def on_save_def
        close_internal_def Let_def)

text \<open>
  What \<^verbatim>\<open>close()\<close> does where the two defects above are out of reach, on a service
  with a backend whose connection is not \<^verbatim>\<open>undefined\<close>: it disconnects the backend,
  requests a save, sets a 2000 ms timer and returns a pending promise. Whatever
  \<^verbatim>\<open>save\<close> events, timer and settlements of the connection's close follow, the promise
  is never rejected; it stays pending until a \<^verbatim>\<open>_close\<close> has settled; once a \<^verbatim>\<open>save\<close>
  event was observed or the timer fired, it is resolved or a \<^verbatim>\<open>_close\<close> is outstanding;
  the settlement of an outstanding \<^verbatim>\<open>_close\<close> resolves it whether the connection's
  close was fulfilled or rejected; and after the timer with no \<^verbatim>\<open>_close\<close> outstanding it
  is resolved.
\<close>

theorem close_never_rejects:
  assumes "connection s \<noteq> Undefined"
  shows "close (s, Some b) =
           Inr (fst (closing_world s b), snd (closing_world s b), [SetTimeout 2000])
    \<and> promise (snd (closing_world s b)) = Pending
    \<and> promise (snd (close_run (closing_world s b) evs)) \<noteq> Rejected
    \<and> (\<not> list_ex is_settled evs \<longrightarrow>
          promise (snd (close_run (closing_world s b) evs)) = Pending)
    \<and> (SaveEmitted \<in> set evs \<or> TimerFired \<in> set evs \<longrightarrow>
          promise (snd (close_run (closing_world s b) evs)) = Resolved
          \<or> closing (snd (close_run (closing_world s b) evs)) \<noteq> [])
    \<and> (i < length (closing (snd (close_run (closing_world s b) evs))) \<longrightarrow>
          promise (snd (close_step (close_run (closing_world s b) evs) (Settled i ok))) = Resolved)
    \<and> (\<not> timer (snd (close_run (closing_world s b) evs))
          \<and> closing (snd (close_run (closing_world s b) evs)) = [] \<longrightarrow>
          promise (snd (close_run (closing_world s b) evs)) = Resolved)"
proof -
  have inv0: "close_inv (closing_world s b)"
    using assms by (simp add: close_inv_def closing_world_def)
  have inv: "close_inv (close_run (closing_world s b) evs)"
    using inv0 by (rule close_inv_run)
  have c1: "close (s, Some b) =
              Inr (fst (closing_world s b), snd (closing_world s b), [SetTimeout 2000])"
    by (simp add: close_def closing_world_def)
  have c0: "promise (snd (closing_world s b)) = Pending"
    by (simp add: closing_world_def)
  have c2: "promise (snd (close_run (closing_world s b) evs)) \<noteq> Rejected"
    using inv by (simp add: close_inv_def)
  have c3: "\<not> list_ex is_settled evs \<longrightarrow>
              promise (snd (close_run (closing_world s b) evs)) = Pending"
    using c0 by (auto intro: pending_until_settled)
  have c4: "SaveEmitted \<in> set evs \<or> TimerFired \<in> set evs \<longrightarrow>
          promise (snd (close_run (closing_world s b) evs)) = Resolved
          \<or> closing (snd (close_run (closing_world s b) evs)) \<noteq> []"
    using started_closing[OF inv0] by blast
  have c5: "i < length (closing (snd (close_run (closing_world s b) evs))) \<longrightarrow>
          promise (snd (close_step (close_run (closing_world s b) evs) (Settled i ok))) = Resolved"
    using c2 by (simp add: close_step_def on_settled_resolves)
  have c6: "\<not> timer (snd (close_run (closing_world s b) evs))
          \<and> closing (snd (close_run (closing_world s b) evs)) = [] \<longrightarrow>
          promise (snd (close_run (closing_world s b) evs)) = Resolved"
    using inv by (auto simp: close_inv_def)
  show ?thesis using c0 c1 c2 c3 c4 c5 c6 by blast
qed

theorem close_never_rejects_example:
  "connection (fst (opened_world 0)) \<noteq> Undefined
   \<and> promise (snd (close_run (closing_world (fst (opened_world 0)) (new_PollingBackend 0))
        [TimerFired])) = Pending
   \<and> closing (snd (close_run (closing_world (fst (opened_world 0)) (new_PollingBackend 0))
        [TimerFired])) = [(TimeoutHandler, ConnectionClose)]
   \<and> promise (snd (close_run (closing_world (fst (opened_world 0)) (new_PollingBackend 0))
        [TimerFired, Settled 0 False])) = Resolved
   \<and> promise (snd (close_run (closing_world (fst (opened_world 0)) (new_PollingBackend 0))
        [SaveEmitted, Settled 0 True, TimerFired])) = Resolved"
  using close_never_rejects [of "fst (opened_world 0)" "new_PollingBackend 0" "[TimerFired]" 0 False]
    close_never_rejects [of "fst (opened_world 0)" "new_PollingBackend 0"
      "[SaveEmitted, Settled 0 True, TimerFired]" 0 False]
  by (simp add: opened_world_eq closing_world_def close_run_def close_step_def on_save_def
        on_timeout_def on_settled_def close_internal_def resolve_def is_settled_def Let_def)

end
